theory Spec2Isabelle
  imports Main "HOL-Library.Log_Nat"
begin

section \<open>Python values, exceptions and the outside world\<close>

text \<open>
  The program is \<^verbatim>\<open>src/bot.py\<close>, class \<^verbatim>\<open>BasicBot\<close> (lines 15 to 89; the text after
  line 89 is a second, damaged copy of the same class and is not modelled).

  A Python value of type \<^verbatim>\<open>Any\<close> is a string, a float or a dictionary. A dictionary is
  an association list in insertion order, the order of the keyword arguments of
  \<^verbatim>\<open>dict(...)\<close>.
\<close>

datatype pyval = Str string | Num rat | Dict "(string \<times> pyval) list"

type_synonym kwargs = "(string \<times> pyval) list"

text \<open>
  The exceptions of class \<^verbatim>\<open>Exception\<close> that matter to the code. A
  \<^verbatim>\<open>BinanceAPIException\<close> carries its \<^verbatim>\<open>message\<close> attribute, when it has one, and the
  text \<^verbatim>\<open>str(e)\<close>; every other exception carries \<^verbatim>\<open>str(e)\<close>. \<^verbatim>\<open>ValueError\<close> is the
  class raised by \<^verbatim>\<open>place_twap\<close> and by \<^verbatim>\<open>time.sleep\<close>; \<^verbatim>\<open>OverflowError\<close> is raised
  by the conversion of a large \<^verbatim>\<open>int\<close> to float and by \<^verbatim>\<open>time.sleep\<close>; \<^verbatim>\<open>OSError\<close> is
  raised by \<^verbatim>\<open>time.sleep\<close>; \<open>OtherException\<close> stands for the remaining subclasses of
  \<^verbatim>\<open>Exception\<close>. Asynchronous interrupts of the process (\<^verbatim>\<open>KeyboardInterrupt\<close>,
  \<^verbatim>\<open>SystemExit\<close>) are not outcomes of a call and are not modelled.
\<close>

datatype exn =
    BinanceAPIException "string option" string
  | ValueError string
  | OverflowError string
  | OSError string
  | OtherException string

fun exn_str :: "exn \<Rightarrow> string" where
  "exn_str (BinanceAPIException m s) = s"
| "exn_str (ValueError s) = s"
| "exn_str (OverflowError s) = s"
| "exn_str (OSError s) = s"
| "exn_str (OtherException s) = s"

text \<open>
  The message an exception carries, as the handlers of \<^verbatim>\<open>_safe_execute\<close> read it:
  \<^verbatim>\<open>getattr(e, 'message', str(e))\<close> for a \<^verbatim>\<open>BinanceAPIException\<close>, \<^verbatim>\<open>str(e)\<close> otherwise.
\<close>

fun exn_message :: "exn \<Rightarrow> string" where
  "exn_message (BinanceAPIException (Some m) s) = m"
| "exn_message (BinanceAPIException None s) = s"
| "exn_message (ValueError s) = s"
| "exn_message (OverflowError s) = s"
| "exn_message (OSError s) = s"
| "exn_message (OtherException s) = s"

text \<open>
  The exchange client is external. Its method \<^verbatim>\<open>futures_create_order(**kwargs)\<close> is a
  parameter of the model: from the keyword arguments and the state of the exchange it
  either raises (\<open>Inl\<close>) or returns a payload (\<open>Inr\<close>), and leaves a new state.

  The world records, oldest first, every order dispatched to the client and every
  \<^verbatim>\<open>time.sleep\<close> performed. Log lines are not recorded: the logger is an external sink
  that does not influence control flow.
\<close>

type_synonym 's client = "kwargs \<Rightarrow> 's \<Rightarrow> (exn + pyval) \<times> 's"

datatype event = Order kwargs | Sleep int

record 's world =
  exchange :: 's
  trace :: "event list"

text \<open>
  \<^verbatim>\<open>time.sleep(secs)\<close> with an \<^verbatim>\<open>int\<close> argument, as CPython 3 does it on a 64-bit
  platform. The argument becomes a count of nanoseconds in a signed 64-bit integer, so an
  argument beyond \<open>9223372036\<close> in magnitude raises \<^verbatim>\<open>OverflowError\<close>; then a negative
  argument raises \<^verbatim>\<open>ValueError\<close>; then the operating system is asked to wait, and it
  refuses, with \<^verbatim>\<open>OSError\<close>, a wait that ends beyond the range of its clock. Where that
  limit lies below \<open>9223372036\<close> depends on how long the clock has been running (on
  Linux, \<open>9223372036\<close> seconds less the uptime). The model takes \<open>sleep_max = 2 ^ 33\<close>
  seconds, some 272 years: every wait up to \<open>sleep_max\<close> is accepted on a machine that has
  been up for less than 20 years, and no longer wait is promised to be.
\<close>

definition sleep_max :: int where
  "sleep_max = 2 ^ 33"

definition time_sleep :: "int \<Rightarrow> 's world \<Rightarrow> exn + 's world" where
  "time_sleep secs w =
     (if secs < - 9223372036 \<or> 9223372036 < secs then
        Inl (OverflowError ''timestamp too large to convert to C _PyTime_t'')
      else if secs < 0 then Inl (ValueError ''sleep length must be non-negative'')
      else if sleep_max < secs then Inl (OSError ''[Errno 22] Invalid argument'')
      else Inr (w\<lparr>trace := trace w @ [Sleep secs]\<rparr>))"

section \<open>Python floats\<close>

text \<open>
  A finite Python float is an IEEE 754 binary64 number; its value is a rational. Every
  arithmetic operation returns the binary64 number nearest to the exact result, ties to
  the even significand. Infinities and NaN are outside the model, and so is a float
  operation whose result overflows to infinity; the conversion of an \<^verbatim>\<open>int\<close> that is too
  large raises, and is in the model. \<open>-0.0\<close> and \<open>0.0\<close>, which Python compares equal, are
  both \<open>0\<close>.
\<close>

text \<open>Nearest integer, ties to even.\<close>

definition rhe :: "rat \<Rightarrow> int" where
  "rhe x = (let f = \<lfloor>x\<rfloor>; d = x - of_int f in
     if d < 1 / 2 then f else if 1 / 2 < d then f + 1 else if even f then f else f + 1)"

text \<open>\<open>ilog2 x\<close> is the integer part of the binary logarithm of a positive rational.\<close>

definition ilog2 :: "rat \<Rightarrow> int" where
  "ilog2 x = (case quotient_of x of (p, q) \<Rightarrow>
     let k = bitlen p - bitlen q in if 2 powi k \<le> x then k else k - 1)"

text \<open>
  The binary exponent of the last bit of the significand of the float nearest to \<open>x\<close>:
  53 significant bits, and no bit below \<open>2 powi (- 1074)\<close> (gradual underflow).
\<close>

definition exponent :: "rat \<Rightarrow> int" where
  "exponent x = max (ilog2 \<bar>x\<bar> - 52) (- 1074)"

text \<open>Rounding to binary64.\<close>

definition fl :: "rat \<Rightarrow> rat" where
  "fl x = (if x = 0 then 0 else of_int (rhe (x / 2 powi exponent x)) * 2 powi exponent x)"

text \<open>The largest finite float, and the finite floats: the fixed points of the rounding up to it.\<close>

definition max_float :: rat where
  "max_float = of_int ((2 ^ 53 - 1) * 2 ^ 971)"

definition is_float :: "rat \<Rightarrow> bool" where
  "is_float x = (fl x = x \<and> \<bar>x\<bar> \<le> max_float)"

text \<open>
  \<^verbatim>\<open>float(x)\<close> of a number, and the conversion of an \<^verbatim>\<open>int\<close> operand that meets a float
  in \<^verbatim>\<open>/\<close>, \<^verbatim>\<open>*\<close> or \<^verbatim>\<open>-\<close>. On a float it is the identity. An \<^verbatim>\<open>int\<close> is rounded to
  the nearest float; when that is beyond the largest float (from \<open>2 ^ 1024 - 2 ^ 970\<close> on) the
  conversion raises \<^verbatim>\<open>OverflowError\<close>.
\<close>

definition py_float :: "rat \<Rightarrow> exn + rat" where
  "py_float x =
     (if max_float < \<bar>fl x\<bar> then Inl (OverflowError ''int too large to convert to float'')
      else Inr (fl x))"

definition float_of_int :: "int \<Rightarrow> exn + rat" where
  "float_of_int n = py_float (of_int n)"

definition fadd :: "rat \<Rightarrow> rat \<Rightarrow> rat" where
  "fadd x y = fl (x + y)"

definition fsub :: "rat \<Rightarrow> rat \<Rightarrow> rat" where
  "fsub x y = fl (x - y)"

definition fmul :: "rat \<Rightarrow> rat \<Rightarrow> rat" where
  "fmul x y = fl (x * y)"

text \<open>Float division; the only call has a divisor of at least 1.\<close>

definition fdiv :: "rat \<Rightarrow> rat \<Rightarrow> rat" where
  "fdiv x y = fl (x / y)"

text \<open>
  \<^verbatim>\<open>round(x, n)\<close> on a float, \<open>n \<ge> 0\<close>: the exact value of \<open>x\<close> is rounded to \<open>n\<close>
  decimals, ties to even, and the decimal result is converted to the nearest float.
\<close>

definition py_round :: "rat \<Rightarrow> nat \<Rightarrow> rat" where
  "py_round x n = fl (of_int (rhe (x * 10 ^ n)) / 10 ^ n)"

text \<open>A decimal literal of Python source, such as \<^verbatim>\<open>0.33333333\<close>, denotes the nearest float.\<close>

definition literal :: "rat \<Rightarrow> rat" where
  "literal d = fl d"

section \<open>The exchange adapter\<close>

text \<open>
  \<^verbatim>\<open>_safe_execute(fn, **kwargs)\<close>: calls \<open>fn\<close>, returns its payload unchanged, and turns
  an exception into the dictionary \<^verbatim>\<open>{"error": message}\<close>.
\<close>

definition safe_execute :: "'s client \<Rightarrow> kwargs \<Rightarrow> 's world \<Rightarrow> pyval \<times> 's world" where
  "safe_execute fn kwargs w =
     (case fn kwargs (exchange w) of (outcome, s') \<Rightarrow>
        let w' = \<lparr>exchange = s', trace = trace w @ [Order kwargs]\<rparr> in
        (case outcome of
           Inr resp \<Rightarrow> (resp, w')
         | Inl (BinanceAPIException m s) \<Rightarrow>
             (Dict [(''error'', Str (case m of Some t \<Rightarrow> t | None \<Rightarrow> s))], w')
         | Inl e \<Rightarrow> (Dict [(''error'', Str (exn_str e))], w')))"

definition market_params :: "string \<Rightarrow> string \<Rightarrow> rat \<Rightarrow> kwargs" where
  "market_params symbol side quantity =
     [(''symbol'', Str symbol), (''side'', Str side), (''type'', Str ''MARKET''),
      (''quantity'', Num quantity)]"

definition limit_params :: "string \<Rightarrow> string \<Rightarrow> rat \<Rightarrow> rat \<Rightarrow> kwargs" where
  "limit_params symbol side quantity price =
     [(''symbol'', Str symbol), (''side'', Str side), (''type'', Str ''LIMIT''),
      (''timeInForce'', Str ''GTC''), (''price'', Num price), (''quantity'', Num quantity)]"

definition stop_limit_params :: "string \<Rightarrow> string \<Rightarrow> rat \<Rightarrow> rat \<Rightarrow> rat \<Rightarrow> kwargs" where
  "stop_limit_params symbol side quantity price stop_price =
     [(''symbol'', Str symbol), (''side'', Str side), (''type'', Str ''STOP''),
      (''timeInForce'', Str ''GTC''), (''price'', Num price), (''stopPrice'', Num stop_price),
      (''quantity'', Num quantity)]"

definition place_market_order ::
  "'s client \<Rightarrow> string \<Rightarrow> string \<Rightarrow> rat \<Rightarrow> 's world \<Rightarrow> pyval \<times> 's world" where
  "place_market_order fn symbol side quantity w =
     safe_execute fn (market_params symbol side quantity) w"

definition place_limit_order ::
  "'s client \<Rightarrow> string \<Rightarrow> string \<Rightarrow> rat \<Rightarrow> rat \<Rightarrow> 's world \<Rightarrow> pyval \<times> 's world" where
  "place_limit_order fn symbol side quantity price w =
     safe_execute fn (limit_params symbol side quantity price) w"

definition place_stop_limit ::
  "'s client \<Rightarrow> string \<Rightarrow> string \<Rightarrow> rat \<Rightarrow> rat \<Rightarrow> rat \<Rightarrow> 's world \<Rightarrow> pyval \<times> 's world" where
  "place_stop_limit fn symbol side quantity price stop_price w =
     safe_execute fn (stop_limit_params symbol side quantity price stop_price) w"

section \<open>The TWAP slicer\<close>

text \<open>
  The quantity of slice \<open>i\<close> (line 83): the rounded base for every slice but the last,
  the rounded remainder \<^verbatim>\<open>total_quantity - base * (slices - 1)\<close> for the last. In the
  remainder the product converts \<open>slices - 1\<close> to float, and then the difference converts
  \<open>total_quantity\<close>, if that is an \<^verbatim>\<open>int\<close>; either conversion can raise.
\<close>

definition slice_qty :: "rat \<Rightarrow> rat \<Rightarrow> int \<Rightarrow> int \<Rightarrow> exn + rat" where
  "slice_qty total_quantity base slices i =
     (if i < slices - 1 then Inr (py_round base 8)
      else
        (case float_of_int (slices - 1) of
           Inl e \<Rightarrow> Inl e
         | Inr s1 \<Rightarrow>
             (case py_float total_quantity of
                Inl e \<Rightarrow> Inl e
              | Inr t \<Rightarrow> Inr (py_round (fsub t (fmul base s1)) 8))))"

text \<open>
  The body of \<^verbatim>\<open>for i in range(slices)\<close>, over the list of the indices still to run.
  An exception of line 83 or of \<^verbatim>\<open>time.sleep\<close> leaves the loop and the function.
\<close>

fun twap_loop ::
  "'s client \<Rightarrow> string \<Rightarrow> string \<Rightarrow> rat \<Rightarrow> int \<Rightarrow> int \<Rightarrow> rat \<Rightarrow> int list \<Rightarrow> pyval list \<Rightarrow>
   's world \<Rightarrow> (exn + pyval list) \<times> 's world" where
  "twap_loop fn symbol side total_quantity slices interval_s base [] results w =
     (Inr results, w)"
| "twap_loop fn symbol side total_quantity slices interval_s base (i # rest) results w =
     (case slice_qty total_quantity base slices i of
        Inl e \<Rightarrow> (Inl e, w)
      | Inr qty \<Rightarrow>
          (case place_market_order fn symbol side qty w of (res, w1) \<Rightarrow>
             if i < slices - 1 then
               (case time_sleep interval_s w1 of
                  Inl e \<Rightarrow> (Inl e, w1)
                | Inr w2 \<Rightarrow>
                    twap_loop fn symbol side total_quantity slices interval_s base rest
                      (results @ [res]) w2)
             else
               twap_loop fn symbol side total_quantity slices interval_s base rest
                 (results @ [res]) w1))"

text \<open>
  \<^verbatim>\<open>place_twap\<close> (lines 76 to 89). \<open>total_quantity\<close> is a Python number: a float, a
  rational \<open>t\<close> with \<open>is_float t\<close>, or an \<^verbatim>\<open>int\<close>; \<open>slices\<close> and \<open>interval_s\<close> are Python
  ints. Line 80 converts first \<open>total_quantity\<close> and then \<open>slices\<close> to float, and either
  conversion can raise, before any order. The check of \<open>slices\<close> comes before the
  division, so the divisor is never \<open>0\<close>.
\<close>

definition place_twap ::
  "'s client \<Rightarrow> string \<Rightarrow> string \<Rightarrow> rat \<Rightarrow> int \<Rightarrow> int \<Rightarrow> 's world \<Rightarrow>
   (exn + pyval list) \<times> 's world" where
  "place_twap fn symbol side total_quantity slices interval_s w =
     (if slices \<le> 0 then (Inl (ValueError ''slices must be >= 1''), w)
      else
        (case py_float total_quantity of
           Inl e \<Rightarrow> (Inl e, w)
         | Inr t \<Rightarrow>
             (case float_of_int slices of
                Inl e \<Rightarrow> (Inl e, w)
              | Inr s \<Rightarrow>
                  let base = fdiv t s in
                  twap_loop fn symbol side total_quantity slices interval_s base
                    [0..slices - 1] [] w)))"

section \<open>Observations on a run\<close>

text \<open>The orders of a trace, and the quantities of its orders, in the order of dispatch.\<close>

fun orders :: "event list \<Rightarrow> kwargs list" where
  "orders [] = []"
| "orders (Order kw # evs) = kw # orders evs"
| "orders (Sleep t # evs) = orders evs"

fun sleeps :: "event list \<Rightarrow> int list" where
  "sleeps [] = []"
| "sleeps (Order kw # evs) = sleeps evs"
| "sleeps (Sleep t # evs) = t # sleeps evs"

fun quantities :: "event list \<Rightarrow> pyval list" where
  "quantities [] = []"
| "quantities (Order kw # evs) =
     (case map_of kw ''quantity'' of Some q \<Rightarrow> q # quantities evs | None \<Rightarrow> quantities evs)"
| "quantities (Sleep t # evs) = quantities evs"

text \<open>The quantities of the orders dispatched between the world \<open>w\<close> and a later world \<open>w'\<close>.\<close>

definition submitted :: "'s world \<Rightarrow> 's world \<Rightarrow> pyval list" where
  "submitted w w' = drop (length (quantities (trace w))) (quantities (trace w'))"

text \<open>
  The adapter results of a sequence of orders run one after the other against the
  exchange: what a caller of \<open>safe_execute\<close> sees for each of them, in order.
\<close>

fun adapter_results :: "'s client \<Rightarrow> kwargs list \<Rightarrow> 's world \<Rightarrow> pyval list" where
  "adapter_results fn [] w = []"
| "adapter_results fn (kw # kws) w =
     (case safe_execute fn kw w of (res, w') \<Rightarrow> res # adapter_results fn kws w')"

text \<open>
  The quantities of a TWAP plan, slice by slice: \<open>slice_value\<close> is the quantity of a
  slice once \<open>total_quantity\<close> has been converted to the float \<open>t\<close>, and a plan whose
  conversions raise has no quantities.
\<close>

definition slice_value :: "rat \<Rightarrow> rat \<Rightarrow> int \<Rightarrow> int \<Rightarrow> rat" where
  "slice_value t base slices i =
     (if i < slices - 1 then py_round base 8
      else py_round (fsub t (fmul base (fl (of_int (slices - 1))))) 8)"

definition twap_quantities :: "rat \<Rightarrow> int \<Rightarrow> rat list" where
  "twap_quantities total_quantity slices =
     (case py_float total_quantity of
        Inl e \<Rightarrow> []
      | Inr t \<Rightarrow>
          (case float_of_int slices of
             Inl e \<Rightarrow> []
           | Inr s \<Rightarrow> map (slice_value t (fdiv t s) slices) [0..slices - 1]))"

text \<open>
  An exchange that accepts every order, one that rejects every order, and one that rejects
  the second order it sees.
\<close>

definition accepting :: "nat client" where
  "accepting kw n = (Inr (Dict [(''orderId'', Str ''ok'')]), Suc n)"

definition rejecting_second :: "nat client" where
  "rejecting_second kw n =
     (if n = 1 then (Inl (BinanceAPIException (Some ''Insufficient margin'')
                            ''APIError(code=-2019): Insufficient margin''), Suc n)
      else (Inr (Dict [(''orderId'', Str ''ok'')]), Suc n))"

definition rejecting :: "nat client" where
  "rejecting kw n = (Inl (BinanceAPIException (Some ''Insufficient margin'')
                            ''APIError(code=-2019): Insufficient margin''), Suc n)"

definition start :: "nat world" where
  "start = \<lparr>exchange = 0, trace = []\<rparr>"

section \<open>Basic facts\<close>

subsection \<open>Floats\<close>

lemma fl_zero: "fl 0 = 0"
  by (simp add: fl_def)

lemma fl_one: "fl 1 = 1"
  by code_simp

lemma rhe_zero: "rhe 0 = 0"
  by (simp add: rhe_def)


lemma rhe_nonpos: "x \<le> 0 \<Longrightarrow> rhe x \<le> 0"
proof -
  assume x: "x \<le> 0"
  have f: "\<lfloor>x\<rfloor> \<le> 0" using x by simp
  show ?thesis
  proof (cases "\<lfloor>x\<rfloor> = 0")
    case True
    then have "0 \<le> x" by (metis of_int_0 of_int_floor_le)
    with x have "x = 0" by simp
    then show ?thesis by (simp add: rhe_zero)
  next
    case False
    with f have "\<lfloor>x\<rfloor> + 1 \<le> 0" by linarith
    with f show ?thesis unfolding rhe_def Let_def by presburger
  qed
qed

lemma rhe_nonneg: "0 \<le> x \<Longrightarrow> 0 \<le> rhe x"
proof -
  assume "0 \<le> x"
  then have "0 \<le> \<lfloor>x\<rfloor>" by simp
  then show ?thesis by (simp add: rhe_def Let_def)
qed

lemma fl_nonpos: "x \<le> 0 \<Longrightarrow> fl x \<le> 0"
proof -
  assume x: "x \<le> 0"
  have "of_int (rhe (x / 2 powi e)) * (2::rat) powi e \<le> 0" for e
  proof -
    have "x / 2 powi e \<le> 0" using x by (simp add: divide_nonpos_pos)
    then have "rhe (x / 2 powi e) \<le> 0" by (rule rhe_nonpos)
    then have "(of_int (rhe (x / 2 powi e)) :: rat) \<le> 0" by simp
    then show ?thesis by (simp add: mult_nonpos_nonneg)
  qed
  then show ?thesis by (simp add: fl_def)
qed

lemma fl_nonneg: "0 \<le> x \<Longrightarrow> 0 \<le> fl x"
proof -
  assume x: "0 \<le> x"
  have "0 \<le> of_int (rhe (x / 2 powi e)) * (2::rat) powi e" for e
  proof -
    have "0 \<le> x / 2 powi e" using x by simp
    then have "0 \<le> rhe (x / 2 powi e)" by (rule rhe_nonneg)
    then show ?thesis by simp
  qed
  then show ?thesis by (simp add: fl_def)
qed


subsection \<open>Rounding to the nearest integer\<close>

lemma rhe_spec:
  "\<bar>of_int (rhe x) - x\<bar> < 1 / 2 \<or> (\<bar>of_int (rhe x) - x\<bar> = 1 / 2 \<and> even (rhe x))"
proof -
  define f where "f = \<lfloor>x\<rfloor>"
  define d where "d = x - of_int f"
  have d0: "0 \<le> d" and d1: "d < 1"
    unfolding d_def f_def by linarith+
  have x: "x = of_int f + d" by (simp add: d_def)
  have r: "rhe x = (if d < 1 / 2 then f else if 1 / 2 < d then f + 1
      else if even f then f else f + 1)"
    by (simp add: rhe_def Let_def f_def d_def)
  consider "d < 1 / 2" | "1 / 2 < d" | "d = 1 / 2" "even f" | "d = 1 / 2" "odd f"
    by fastforce
  then show ?thesis
  proof cases
    case 1
    with r have "rhe x = f" by simp
    with 1 d0 x show ?thesis by simp
  next
    case 2
    with r have "rhe x = f + 1" by simp
    with 2 d1 x show ?thesis by simp
  next
    case 3
    with r have "rhe x = f" by simp
    with 3 x show ?thesis by simp
  next
    case 4
    with r have "rhe x = f + 1" by simp
    with 4 x show ?thesis by simp
  qed
qed

lemma rhe_error: "\<bar>of_int (rhe x) - x\<bar> \<le> 1 / 2"
  using rhe_spec [of x] by linarith

lemma rhe_unique:
  assumes "\<bar>of_int n - x\<bar> < 1 / 2 \<or> (\<bar>of_int n - x\<bar> = 1 / 2 \<and> even n)"
  shows "rhe x = n"
proof (rule ccontr)
  assume ne: "rhe x \<noteq> n"
  let ?m = "rhe x"
  have s: "\<bar>of_int ?m - x\<bar> < 1 / 2 \<or> (\<bar>of_int ?m - x\<bar> = 1 / 2 \<and> even ?m)"
    by (rule rhe_spec)
  have tri: "\<bar>(of_int ?m :: rat) - of_int n\<bar> \<le> \<bar>of_int ?m - x\<bar> + \<bar>of_int n - x\<bar>"
    by linarith
  have one: "1 \<le> \<bar>?m - n\<bar>" using ne by linarith
  then have one': "(1::rat) \<le> \<bar>of_int ?m - of_int n\<bar>"
    by (metis of_int_1 of_int_abs of_int_diff of_int_le_iff)
  from s assms tri one' have b: "\<bar>of_int ?m - x\<bar> = 1 / 2" "\<bar>of_int n - x\<bar> = 1 / 2"
    and ev: "even ?m" "even n"
    by linarith+
  from b tri have "\<bar>(of_int ?m :: rat) - of_int n\<bar> \<le> 1" by linarith
  then have "\<bar>?m - n\<bar> \<le> 1"
    by (metis of_int_1 of_int_abs of_int_diff of_int_le_iff)
  with one have "\<bar>?m - n\<bar> = 1" by linarith
  with ev show False by presburger
qed

lemma rhe_of_int: "rhe (of_int n) = n"
  by (rule rhe_unique) simp

lemma rhe_minus: "rhe (- x) = - rhe x"
proof (rule rhe_unique)
  have "\<bar>of_int (- rhe x) - - x\<bar> = \<bar>of_int (rhe x) - x\<bar>"
    by simp
  with rhe_spec [of x]
  show "\<bar>of_int (- rhe x) - - x\<bar> < 1 / 2 \<or>
      (\<bar>of_int (- rhe x) - - x\<bar> = 1 / 2 \<and> even (- rhe x))"
    by auto
qed

lemma rhe_mono:
  assumes "x \<le> y"
  shows "rhe x \<le> rhe y"
proof (rule ccontr)
  assume "\<not> rhe x \<le> rhe y"
  then have gt: "rhe y + 1 \<le> rhe x" by simp
  then have gt': "(of_int (rhe y) :: rat) + 1 \<le> of_int (rhe x)"
    by (metis of_int_1 of_int_add of_int_le_iff)
  have a: "of_int (rhe x) \<le> x + 1 / 2" using rhe_error [of x] by linarith
  have b: "y - 1 / 2 \<le> of_int (rhe y)" using rhe_error [of y] by linarith
  from a b gt' assms have "x = y" by linarith
  with gt show False by simp
qed

subsection \<open>The binary logarithm\<close>

lemma pow2_mono: "m \<le> n \<Longrightarrow> (2::rat) powi m \<le> 2 powi n"
  by (rule power_int_increasing) simp_all

lemma pow2_strict_mono: "m < n \<Longrightarrow> (2::rat) powi m < 2 powi n"
  by (rule power_int_strict_increasing) simp_all

lemma pow2_less_cancel: "(2::rat) powi m < 2 powi n \<Longrightarrow> m < n"
  using pow2_mono [of n m] by (cases "m < n") simp_all

lemma pow2_le_cancel: "(2::rat) powi m \<le> 2 powi n \<Longrightarrow> m \<le> n"
  using pow2_strict_mono [of n m] by (cases "m \<le> n") simp_all

lemma ilog2_bounds:
  assumes "0 < x"
  shows "2 powi ilog2 x \<le> x \<and> x < 2 powi (ilog2 x + 1)"
proof -
  obtain p q where pq: "quotient_of x = (p, q)"
    by (cases "quotient_of x")
  then have q: "0 < q" and x: "x = of_int p / of_int q"
    by (simp_all add: quotient_of_denom_pos quotient_of_div)
  with assms have p: "0 < p"
    by (simp add: zero_less_divide_iff)
  define a where "a = bitlen p"
  define b where "b = bitlen q"
  have a1: "1 \<le> a" and b1: "1 \<le> b"
    using p q bitlen_eq_zero_iff [of p] bitlen_eq_zero_iff [of q] bitlen_nonneg [of p]
      bitlen_nonneg [of q]
    unfolding a_def b_def by linarith+
  from bitlen_bounds [OF p] have "2 ^ nat (a - 1) \<le> p" "p < 2 ^ nat a"
    by (simp_all add: a_def)
  then have "(of_int (2 ^ nat (a - 1)) :: rat) \<le> of_int p" "(of_int p :: rat) < of_int (2 ^ nat a)"
    by (simp_all only: of_int_le_iff of_int_less_iff)
  then have pa: "(2::rat) powi (a - 1) \<le> of_int p" "of_int p < (2::rat) powi a"
    using a1 by (simp_all add: power_int_nonneg_exp)
  from bitlen_bounds [OF q] have "2 ^ nat (b - 1) \<le> q" "q < 2 ^ nat b"
    by (simp_all add: b_def)
  then have "(of_int (2 ^ nat (b - 1)) :: rat) \<le> of_int q" "(of_int q :: rat) < of_int (2 ^ nat b)"
    by (simp_all only: of_int_le_iff of_int_less_iff)
  then have qb: "(2::rat) powi (b - 1) \<le> of_int q" "of_int q < (2::rat) powi b"
    using b1 by (simp_all add: power_int_nonneg_exp)
  have qpos: "(0::rat) < of_int q" using q by simp
  have up: "x < 2 powi (a - b + 1)"
  proof -
    have "x * 2 powi (b - 1) \<le> x * of_int q"
      using qb(1) assms by simp
    also have "\<dots> = of_int p" using x qpos by simp
    also have "\<dots> < 2 powi a" by (rule pa(2))
    finally have "x < (2::rat) powi a / 2 powi (b - 1)"
      by (simp add: pos_less_divide_eq)
    also have "\<dots> = 2 powi (a - (b - 1))"
      by (rule power_int_diff [symmetric]) simp
    also have "\<dots> = 2 powi (a - b + 1)"
      by (rule arg_cong [where f = "\<lambda>k. 2 powi k"]) simp
    finally show ?thesis .
  qed
  have lo: "2 powi (a - b - 1) \<le> x"
  proof -
    have "(2::rat) powi (a - b - 1) * of_int q \<le> 2 powi (a - b - 1) * 2 powi b"
      using qb(2) by simp
    also have "\<dots> = 2 powi (a - b - 1 + b)"
      by (rule power_int_add [symmetric]) simp
    also have "\<dots> = 2 powi (a - 1)"
      by (rule arg_cong [where f = "\<lambda>k. 2 powi k"]) simp
    also have "\<dots> \<le> of_int p" by (rule pa(1))
    finally have "(2::rat) powi (a - b - 1) \<le> of_int p / of_int q"
      using qpos by (simp add: pos_le_divide_eq)
    then show ?thesis by (simp add: x)
  qed
  have il: "ilog2 x = (if 2 powi (a - b) \<le> x then a - b else a - b - 1)"
    by (simp add: ilog2_def pq a_def b_def Let_def)
  show ?thesis
  proof (cases "2 powi (a - b) \<le> x")
    case True
    with il up show ?thesis by simp
  next
    case False
    with il lo show ?thesis by simp
  qed
qed

subsection \<open>The error of rounding to a float\<close>

lemma exponent_minus: "exponent (- x) = exponent x"
  by (simp add: exponent_def)

lemma fl_minus: "fl (- x) = - fl x"
  by (simp add: fl_def exponent_minus rhe_minus)







subsection \<open>Rounding to a float is monotone\<close>

lemma ilog2_mono:
  assumes "0 < x" and "x \<le> y"
  shows "ilog2 x \<le> ilog2 y"
proof -
  from assms have y: "0 < y" by simp
  from ilog2_bounds [OF assms(1)] ilog2_bounds [OF y] assms(2)
  have "(2::rat) powi ilog2 x < 2 powi (ilog2 y + 1)" by linarith
  then have "ilog2 x < ilog2 y + 1" by (rule pow2_less_cancel)
  then show ?thesis by simp
qed

lemma exponent_mono:
  assumes "0 < x" and "x \<le> y"
  shows "exponent x \<le> exponent y"
  using ilog2_mono [of "\<bar>x\<bar>" "\<bar>y\<bar>"] assms by (simp add: exponent_def)

lemma fl_scaled_mono:
  assumes "x \<le> y"
  shows "of_int (rhe (x / 2 powi e)) * (2::rat) powi e \<le> of_int (rhe (y / 2 powi e)) * 2 powi e"
proof -
  have "x / 2 powi e \<le> y / 2 powi e"
    using assms by (simp add: divide_right_mono)
  then have "rhe (x / 2 powi e) \<le> rhe (y / 2 powi e)" by (rule rhe_mono)
  then have "(of_int (rhe (x / 2 powi e)) :: rat) \<le> of_int (rhe (y / 2 powi e))" by simp
  then show ?thesis by (rule mult_right_mono) simp
qed

lemma fl_upper:
  assumes "0 < x"
  shows "fl x \<le> 2 powi (exponent x + 53)"
proof -
  let ?e = "exponent x"
  have "ilog2 x + 1 \<le> ?e + 53" using assms by (simp add: exponent_def)
  then have "(2::rat) powi (ilog2 x + 1) \<le> 2 powi (?e + 53)" by (rule pow2_mono)
  with ilog2_bounds [OF assms] have "x \<le> 2 powi (?e + 53)" by linarith
  also have "\<dots> = of_int (2 ^ 53) * 2 powi ?e"
    by (simp add: power_int_add)
  finally have "x / 2 powi ?e \<le> of_int (2 ^ 53)"
    by (simp add: pos_divide_le_eq)
  then have "rhe (x / 2 powi ?e) \<le> rhe (of_int (2 ^ 53))" by (rule rhe_mono)
  then have "rhe (x / 2 powi ?e) \<le> 2 ^ 53" by (simp only: rhe_of_int)
  then have "(of_int (rhe (x / 2 powi ?e)) :: rat) \<le> of_int (2 ^ 53)"
    by (simp only: of_int_le_iff)
  then have "of_int (rhe (x / 2 powi ?e)) * 2 powi ?e \<le> of_int (2 ^ 53) * (2::rat) powi ?e"
    by (rule mult_right_mono) simp
  also have "\<dots> = 2 powi (?e + 53)"
    by (simp add: power_int_add)
  finally show ?thesis using assms by (simp add: fl_def)
qed

lemma fl_lower:
  assumes "0 < x" and "exponent x = ilog2 x - 52"
  shows "2 powi ilog2 x \<le> fl x"
proof -
  let ?e = "exponent x"
  have "(2::rat) powi ilog2 x = 2 powi (52 + ?e)"
    by (rule arg_cong [where f = "\<lambda>k. 2 powi k"]) (simp add: assms(2))
  also have "\<dots> = of_int (2 ^ 52) * 2 powi ?e"
    by (simp add: power_int_add)
  finally have p: "(2::rat) powi ilog2 x = of_int (2 ^ 52) * 2 powi ?e" .
  with ilog2_bounds [OF assms(1)] have "of_int (2 ^ 52) * 2 powi ?e \<le> x" by linarith
  then have "of_int (2 ^ 52) \<le> x / 2 powi ?e"
    by (simp add: pos_le_divide_eq)
  then have "rhe (of_int (2 ^ 52)) \<le> rhe (x / 2 powi ?e)" by (rule rhe_mono)
  then have "2 ^ 52 \<le> rhe (x / 2 powi ?e)" by (simp only: rhe_of_int)
  then have "(of_int (2 ^ 52) :: rat) \<le> of_int (rhe (x / 2 powi ?e))"
    by (simp only: of_int_le_iff)
  then have "of_int (2 ^ 52) * (2::rat) powi ?e \<le> of_int (rhe (x / 2 powi ?e)) * 2 powi ?e"
    by (rule mult_right_mono) simp
  with p show ?thesis using assms(1) by (simp add: fl_def)
qed

lemma fl_mono_pos:
  assumes "0 < x" and "x \<le> y"
  shows "fl x \<le> fl y"
proof -
  from assms have y: "0 < y" by simp
  have le: "exponent x \<le> exponent y" using assms by (rule exponent_mono)
  show ?thesis
  proof (cases "exponent x = exponent y")
    case True
    with fl_scaled_mono [OF assms(2), of "exponent y"] assms(1) y show ?thesis
      by (simp add: fl_def)
  next
    case False
    with le have lt: "exponent x < exponent y" by simp
    then have "- 1074 < exponent y" by (simp add: exponent_def)
    then have ey: "exponent y = ilog2 y - 52" using y by (simp add: exponent_def)
    have "fl x \<le> 2 powi (exponent x + 53)" using assms(1) by (rule fl_upper)
    also have "\<dots> \<le> 2 powi ilog2 y"
      using lt ey by (intro pow2_mono) simp
    also have "\<dots> \<le> fl y" using y ey by (rule fl_lower)
    finally show ?thesis .
  qed
qed

lemma fl_mono:
  assumes "x \<le> y"
  shows "fl x \<le> fl y"
proof -
  consider "0 < x" | "x \<le> 0" "0 \<le> y" | "y < 0" by linarith
  then show ?thesis
  proof cases
    case 1
    then show ?thesis using assms by (rule fl_mono_pos)
  next
    case 2
    with fl_nonpos [of x] fl_nonneg [of y] show ?thesis by linarith
  next
    case 3
    with assms have "0 < - y" "- y \<le> - x" by simp_all
    then have "fl (- y) \<le> fl (- x)" by (rule fl_mono_pos)
    then show ?thesis by (simp add: fl_minus)
  qed
qed

subsection \<open>Floats are fixed points of the rounding\<close>

lemma fl_of_int:
  assumes "0 \<le> n" and "n \<le> 2 ^ 53"
  shows "fl (of_int n) = of_int n"
proof (cases "n = 0")
  case True
  then show ?thesis by (simp add: fl_zero)
next
  case False
  with assms have n: "0 < n" by simp
  let ?x = "of_int n :: rat"
  have x: "0 < ?x" using n by simp
  have one: "(2::rat) powi 0 \<le> ?x" using n by simp
  have k0: "0 \<le> ilog2 ?x"
  proof -
    from one ilog2_bounds [OF x] have "(2::rat) powi 0 < 2 powi (ilog2 ?x + 1)" by linarith
    then have "0 < ilog2 ?x + 1" by (rule pow2_less_cancel)
    then show ?thesis by simp
  qed
  have "?x \<le> of_int (2 ^ 53)" using assms(2) by (simp only: of_int_le_iff)
  then have le: "?x \<le> 2 powi 53" by simp
  with ilog2_bounds [OF x] have "(2::rat) powi ilog2 ?x \<le> 2 powi 53" by linarith
  then have k53: "ilog2 ?x \<le> 53" by (rule pow2_le_cancel)
  have e: "exponent ?x = ilog2 ?x - 52" using k0 x by (simp add: exponent_def)
  have "\<exists>m. ?x / 2 powi exponent ?x = of_int m"
  proof (cases "ilog2 ?x = 53")
    case True
    with ilog2_bounds [OF x] le have "?x = 2 powi 53" by simp
    with True e have "?x / 2 powi exponent ?x = of_int (2 ^ 52)" by simp
    then show ?thesis ..
  next
    case False
    with k53 e have neg: "exponent ?x \<le> 0" by simp
    have "(2::rat) powi exponent ?x * 2 powi (- exponent ?x) = 2 powi (exponent ?x + - exponent ?x)"
      by (rule power_int_add [symmetric]) simp
    then have "(2::rat) powi exponent ?x * 2 powi (- exponent ?x) = 1" by simp
    then have "?x / 2 powi exponent ?x = ?x * 2 powi (- exponent ?x)"
      by (simp add: divide_eq_eq mult.assoc mult.commute)
    also have "\<dots> = ?x * 2 ^ nat (- exponent ?x)"
      using neg by (simp add: power_int_nonneg_exp)
    also have "\<dots> = of_int (n * 2 ^ nat (- exponent ?x))" by simp
    finally show ?thesis ..
  qed
  then obtain m where m: "?x / 2 powi exponent ?x = of_int m" ..
  then have "of_int (rhe (?x / 2 powi exponent ?x)) * (2::rat) powi exponent ?x =
      ?x / 2 powi exponent ?x * 2 powi exponent ?x"
    by (simp only: rhe_of_int)
  then show ?thesis using x by (simp add: fl_def)
qed

lemma fl_representable:
  assumes m: "0 < m" "m \<le> 2 ^ 53" and e: "- 1074 \<le> e"
  shows "fl (of_int m * 2 powi e) = of_int m * 2 powi e"
proof -
  define v :: rat where "v = of_int m * 2 powi e"
  have v: "0 < v" using m(1) by (simp add: v_def)
  have "(of_int m :: rat) \<le> of_int (2 ^ 53)" using m(2) by (simp only: of_int_le_iff)
  then have "v \<le> of_int (2 ^ 53) * 2 powi e"
    unfolding v_def by (rule mult_right_mono) simp
  also have "\<dots> = 2 powi 53 * 2 powi e" by simp
  also have "\<dots> = 2 powi (53 + e)" by (rule power_int_add [symmetric]) simp
  finally have vle: "v \<le> 2 powi (53 + e)" .
  with ilog2_bounds [OF v] have "(2::rat) powi ilog2 v \<le> 2 powi (53 + e)" by linarith
  then have k: "ilog2 v \<le> 53 + e" by (rule pow2_le_cancel)
  have ex: "exponent v = max (ilog2 v - 52) (- 1074)" using v by (simp add: exponent_def)
  have "\<exists>j. v / 2 powi exponent v = of_int j"
  proof (cases "ilog2 v = 53 + e")
    case True
    with ilog2_bounds [OF v] vle have veq: "v = 2 powi (53 + e)" by simp
    from True e ex have "exponent v = e + 1" by simp
    then have "v / 2 powi exponent v = 2 powi (53 + e) / 2 powi (e + 1)"
      by (simp only: veq)
    also have "\<dots> = 2 powi (53 + e - (e + 1))"
      by (rule power_int_diff [symmetric]) simp
    also have "\<dots> = of_int (2 ^ 52)" by simp
    finally show ?thesis ..
  next
    case False
    with k e ex have le: "exponent v \<le> e" by simp
    define n where "n = nat (e - exponent v)"
    have "(2::rat) powi e = 2 powi (int n + exponent v)"
      by (rule arg_cong [where f = "\<lambda>k. 2 powi k"]) (use le in \<open>simp add: n_def\<close>)
    also have "\<dots> = 2 powi int n * 2 powi exponent v"
      by (rule power_int_add) simp
    finally have "v = of_int (m * 2 ^ n) * 2 powi exponent v"
      by (simp add: v_def)
    then have "v / 2 powi exponent v = of_int (m * 2 ^ n)"
      by (simp add: divide_eq_eq)
    then show ?thesis ..
  qed
  then obtain j where j: "v / 2 powi exponent v = of_int j" ..
  then have "of_int (rhe (v / 2 powi exponent v)) * (2::rat) powi exponent v =
      v / 2 powi exponent v * 2 powi exponent v"
    by (simp only: rhe_of_int)
  then have "fl v = v" using v by (simp add: fl_def)
  then show ?thesis by (simp only: v_def)
qed



subsection \<open>Rounding a float of at most 8 decimals\<close>


subsection \<open>Conversions to float, and the quantities of a plan\<close>

lemma max_float_repr: "max_float = of_int (2 ^ 53 - 1) * 2 powi 971"
  by (simp add: max_float_def)


lemma fl_max_float: "fl max_float = max_float"
  unfolding max_float_repr by (rule fl_representable) simp_all

lemma fl_abs_le_max:
  assumes "\<bar>x\<bar> \<le> max_float"
  shows "\<bar>fl x\<bar> \<le> max_float"
proof -
  from assms have "x \<le> max_float" "- max_float \<le> x" by simp_all
  then have "fl x \<le> fl max_float" "fl (- max_float) \<le> fl x"
    by (simp_all only: fl_mono)
  then show ?thesis by (simp add: fl_minus fl_max_float abs_le_iff)
qed

lemma py_float_ok: "\<bar>x\<bar> \<le> max_float \<Longrightarrow> py_float x = Inr (fl x)"
  using fl_abs_le_max [of x] by (simp add: py_float_def)

lemma py_float_float: "is_float x \<Longrightarrow> py_float x = Inr x"
  by (simp add: py_float_def is_float_def)


lemma py_float_result: "py_float x = Inr t \<Longrightarrow> t = fl x \<and> \<bar>fl x\<bar> \<le> max_float"
  by (simp add: py_float_def split: if_splits)

lemma float_of_int_ok:
  "0 \<le> n \<Longrightarrow> of_int n \<le> max_float \<Longrightarrow> float_of_int n = Inr (fl (of_int n))"
  unfolding float_of_int_def by (rule py_float_ok) simp

lemma two_53_le_max_float: "2 ^ 53 \<le> max_float"
  by (simp add: max_float_def)

lemma float_of_int_small:
  assumes "0 \<le> n" and "n \<le> 2 ^ 53"
  shows "float_of_int n = Inr (of_int n)"
proof -
  have "(of_int n :: rat) \<le> of_int (2 ^ 53)" using assms(2) by (simp only: of_int_le_iff)
  then have "(of_int n :: rat) \<le> max_float" using two_53_le_max_float by simp
  with assms show ?thesis by (simp add: float_of_int_ok fl_of_int)
qed

lemma float_of_int_pred:
  assumes "float_of_int slices = Inr s" and "1 \<le> slices"
  shows "float_of_int (slices - 1) = Inr (fl (of_int (slices - 1)))"
proof -
  from assms(1) have "\<bar>fl (of_int slices)\<bar> \<le> max_float"
    unfolding float_of_int_def by (rule py_float_result [THEN conjunct2])
  moreover have "fl (of_int (slices - 1)) \<le> fl (of_int slices)"
    by (rule fl_mono) simp
  moreover have "0 \<le> fl (of_int (slices - 1) :: rat)"
    using assms(2) by (intro fl_nonneg) simp
  ultimately have "\<bar>fl (of_int (slices - 1))\<bar> \<le> max_float" by linarith
  then show ?thesis by (simp add: float_of_int_def py_float_def)
qed

lemma slice_qty_ok:
  assumes "py_float tq = Inr t" and "float_of_int slices = Inr s" and "1 \<le> slices"
  shows "slice_qty tq base slices i = Inr (slice_value t base slices i)"
  using assms(1) float_of_int_pred [OF assms(2,3)]
  by (simp add: slice_qty_def slice_value_def)





lemma twap_quantities_ok:
  "py_float tq = Inr t \<Longrightarrow> float_of_int slices = Inr s \<Longrightarrow>
   twap_quantities tq slices = map (slice_value t (fdiv t s) slices) [0..slices - 1]"
  by (simp add: twap_quantities_def)

lemma length_twap_quantities:
  "py_float tq = Inr t \<Longrightarrow> float_of_int slices = Inr s \<Longrightarrow>
   length (twap_quantities tq slices) = nat slices"
  by (simp add: twap_quantities_ok)



lemma float_of_int_two_1024:
  "float_of_int (2 ^ 1024) = Inl (OverflowError ''int too large to convert to float'')"
  using fl_representable [of 1 1024]
  by (simp add: float_of_int_def py_float_def max_float_def)

lemma py_float_one: "py_float 1 = Inr 1"
  using py_float_float [of 1] fl_one two_53_le_max_float by (simp add: is_float_def)

subsection \<open>The sign of the slices of a negative total\<close>







subsection \<open>Traces and adapter results\<close>

lemma orders_append: "orders (xs @ ys) = orders xs @ orders ys"
  by (induction xs rule: orders.induct) auto

lemma sleeps_append: "sleeps (xs @ ys) = sleeps xs @ sleeps ys"
  by (induction xs rule: sleeps.induct) auto

lemma quantities_append: "quantities (xs @ ys) = quantities xs @ quantities ys"
  by (induction xs rule: quantities.induct) (auto split: option.splits)

lemma safe_execute_exchange:
  "exchange w1 = exchange w2 \<Longrightarrow>
   fst (safe_execute fn kw w1) = fst (safe_execute fn kw w2) \<and>
   exchange (snd (safe_execute fn kw w1)) = exchange (snd (safe_execute fn kw w2))"
  by (auto simp: safe_execute_def Let_def split: prod.splits sum.splits exn.splits)

lemma safe_execute_trace:
  "trace (snd (safe_execute fn kw w)) = trace w @ [Order kw]"
  by (auto simp: safe_execute_def Let_def split: prod.splits sum.splits exn.splits)

lemma adapter_results_exchange:
  "exchange w1 = exchange w2 \<Longrightarrow> adapter_results fn kws w1 = adapter_results fn kws w2"
proof (induction kws arbitrary: w1 w2)
  case Nil
  show ?case by simp
next
  case (Cons kw kws)
  from safe_execute_exchange [OF Cons.prems, of fn kw]
  have a: "fst (safe_execute fn kw w1) = fst (safe_execute fn kw w2)"
    and b: "exchange (snd (safe_execute fn kw w1)) = exchange (snd (safe_execute fn kw w2))"
    by simp_all
  from Cons.IH [OF b] a show ?case
    by (simp add: case_prod_unfold)
qed

lemma length_adapter_results: "length (adapter_results fn kws w) = length kws"
  by (induction kws arbitrary: w) (auto split: prod.splits)

lemma safe_execute_raised:
  "fn kw (exchange w) = (Inl e, s') \<Longrightarrow>
   safe_execute fn kw w =
     (Dict [(''error'', Str (exn_message e))], \<lparr>exchange = s', trace = trace w @ [Order kw]\<rparr>)"
  by (cases e rule: exn_message.cases) (simp_all add: safe_execute_def)

lemma safe_execute_returned:
  "fn kw (exchange w) = (Inr resp, s') \<Longrightarrow>
   safe_execute fn kw w = (resp, \<lparr>exchange = s', trace = trace w @ [Order kw]\<rparr>)"
  by (simp add: safe_execute_def)

lemma safe_execute_xor:
  "(\<exists>resp s'. fn kw (exchange w) = (Inr resp, s') \<and> fst (safe_execute fn kw w) = resp) \<noteq>
   (\<exists>e s'. fn kw (exchange w) = (Inl e, s') \<and>
      fst (safe_execute fn kw w) = Dict [(''error'', Str (exn_message e))])"
proof (cases "fn kw (exchange w)")
  case (Pair outcome s')
  show ?thesis
  proof (cases outcome)
    case (Inl e)
    with Pair safe_execute_raised [of fn kw w e s'] show ?thesis by simp
  next
    case (Inr resp)
    with Pair safe_execute_returned [of fn kw w resp s'] show ?thesis by simp
  qed
qed

subsection \<open>The slice loop\<close>

lemma time_sleep_ok:
  "0 \<le> secs \<Longrightarrow> secs \<le> sleep_max \<Longrightarrow>
   time_sleep secs w = Inr (w\<lparr>trace := trace w @ [Sleep secs]\<rparr>)"
  by (simp add: time_sleep_def sleep_max_def)

lemma time_sleep_error:
  "time_sleep secs w = Inl e \<Longrightarrow> e \<noteq> ValueError ''slices must be >= 1''"
  by (auto simp: time_sleep_def split: if_splits)


lemma py_float_error:
  "py_float x = Inl e \<Longrightarrow> e = OverflowError ''int too large to convert to float''"
  by (auto simp: py_float_def split: if_splits)

lemma slice_qty_error:
  "slice_qty tq base slices i = Inl e \<Longrightarrow> e = OverflowError ''int too large to convert to float''"
  by (auto simp: slice_qty_def float_of_int_def split: if_splits sum.splits
      dest: py_float_error)

lemma twap_loop_runs:
  assumes iv: "0 \<le> interval_s" "interval_s \<le> sleep_max"
    and q: "\<forall>i \<in> set idxs. slice_qty tq base slices i = Inr (qv i)"
  shows "\<exists>w'. twap_loop fn symbol side tq slices interval_s base idxs results w =
           (Inr (results @ adapter_results fn
                   (map (\<lambda>i. market_params symbol side (qv i)) idxs) w), w')
         \<and> orders (trace w') = orders (trace w) @
             map (\<lambda>i. market_params symbol side (qv i)) idxs
         \<and> sleeps (trace w') = sleeps (trace w) @
             replicate (length (filter (\<lambda>i. i < slices - 1) idxs)) interval_s"
  using q
proof (induction idxs arbitrary: results w)
  case Nil
  show ?case by simp
next
  case (Cons i rest)
  let ?kw = "market_params symbol side (qv i)"
  from Cons.prems have qi: "slice_qty tq base slices i = Inr (qv i)"
    and qr: "\<forall>i \<in> set rest. slice_qty tq base slices i = Inr (qv i)"
    by simp_all
  obtain res w1 where ex: "safe_execute fn ?kw w = (res, w1)"
    by (cases "safe_execute fn ?kw w")
  have tr1: "trace w1 = trace w @ [Order ?kw]"
    using safe_execute_trace [of fn ?kw w] ex by simp
  show ?case
  proof (cases "i < slices - 1")
    case True
    let ?w2 = "w1\<lparr>trace := trace w1 @ [Sleep interval_s]\<rparr>"
    have sl: "time_sleep interval_s w1 = Inr ?w2"
      using iv by (rule time_sleep_ok)
    have same: "adapter_results fn kws ?w2 = adapter_results fn kws w1" for kws
      by (rule adapter_results_exchange) simp
    from Cons.IH [OF qr, of "results @ [res]" ?w2] obtain w' where
      run: "twap_loop fn symbol side tq slices interval_s base rest (results @ [res]) ?w2 =
              (Inr ((results @ [res]) @ adapter_results fn
                 (map (\<lambda>i. market_params symbol side (qv i)) rest) ?w2), w')"
      and ord: "orders (trace w') = orders (trace ?w2) @
                 map (\<lambda>i. market_params symbol side (qv i)) rest"
      and slp: "sleeps (trace w') = sleeps (trace ?w2) @
                 replicate (length (filter (\<lambda>i. i < slices - 1) rest)) interval_s"
      by blast
    have "twap_loop fn symbol side tq slices interval_s base (i # rest) results w =
            (Inr (results @ adapter_results fn
                   (map (\<lambda>i. market_params symbol side (qv i)) (i # rest)) w), w')"
      using True ex sl run same qi by (simp add: place_market_order_def)
    moreover have "orders (trace w') = orders (trace w) @
        map (\<lambda>i. market_params symbol side (qv i)) (i # rest)"
      using ord tr1 by (simp add: orders_append)
    moreover have "sleeps (trace w') = sleeps (trace w) @
        replicate (length (filter (\<lambda>i. i < slices - 1) (i # rest))) interval_s"
      using slp tr1 True by (simp add: sleeps_append)
    ultimately show ?thesis by blast
  next
    case False
    from Cons.IH [OF qr, of "results @ [res]" w1] obtain w' where
      run: "twap_loop fn symbol side tq slices interval_s base rest (results @ [res]) w1 =
              (Inr ((results @ [res]) @ adapter_results fn
                 (map (\<lambda>i. market_params symbol side (qv i)) rest) w1), w')"
      and ord: "orders (trace w') = orders (trace w1) @
                 map (\<lambda>i. market_params symbol side (qv i)) rest"
      and slp: "sleeps (trace w') = sleeps (trace w1) @
                 replicate (length (filter (\<lambda>i. i < slices - 1) rest)) interval_s"
      by blast
    have "twap_loop fn symbol side tq slices interval_s base (i # rest) results w =
            (Inr (results @ adapter_results fn
                   (map (\<lambda>i. market_params symbol side (qv i)) (i # rest)) w), w')"
      using False ex run qi by (simp add: place_market_order_def)
    moreover have "orders (trace w') = orders (trace w) @
        map (\<lambda>i. market_params symbol side (qv i)) (i # rest)"
      using ord tr1 by (simp add: orders_append)
    moreover have "sleeps (trace w') = sleeps (trace w) @
        replicate (length (filter (\<lambda>i. i < slices - 1) (i # rest))) interval_s"
      using slp tr1 False by (simp add: sleeps_append)
    ultimately show ?thesis by blast
  qed
qed

lemma twap_loop_error:
  "fst (twap_loop fn symbol side tq slices interval_s base idxs results w) = Inl e \<Longrightarrow>
   e \<noteq> ValueError ''slices must be >= 1''"
proof (induction idxs arbitrary: results w)
  case Nil
  then show ?case by simp
next
  case (Cons i rest)
  show ?case
  proof (cases "slice_qty tq base slices i")
    case (Inl e')
    with Cons.prems have "e = e'" by simp
    with slice_qty_error [OF Inl] show ?thesis by simp
  next
    case (Inr qty)
    obtain res w1 where ex: "place_market_order fn symbol side qty w = (res, w1)"
      by (cases "place_market_order fn symbol side qty w")
    show ?thesis
    proof (cases "i < slices - 1")
      case True
      show ?thesis
      proof (cases "time_sleep interval_s w1")
        case (Inl e')
        with Cons.prems Inr ex True have "e = e'" by simp
        with time_sleep_error [OF Inl] show ?thesis by simp
      next
        case (Inr w2)
        with Cons.prems \<open>slice_qty tq base slices i = Inr qty\<close> ex True
        have "fst (twap_loop fn symbol side tq slices interval_s base rest (results @ [res]) w2) =
            Inl e" by simp
        then show ?thesis by (rule Cons.IH)
      qed
    next
      case False
      with Cons.prems Inr ex
      have "fst (twap_loop fn symbol side tq slices interval_s base rest (results @ [res]) w1) =
          Inl e" by simp
      then show ?thesis by (rule Cons.IH)
    qed
  qed
qed



subsection \<open>Runs of the slicer\<close>

lemma quantities_orders:
  "quantities evs = List.map_filter (\<lambda>kw. map_of kw ''quantity'') (orders evs)"
  by (induction evs rule: quantities.induct) (simp_all split: option.splits)

lemma map_filter_market:
  "List.map_filter (\<lambda>kw. map_of kw ''quantity'') (map (market_params symbol side) qs) = map Num qs"
  by (induction qs) (simp_all add: market_params_def)

lemma map_filter_append:
  "List.map_filter f (xs @ ys) = List.map_filter f xs @ List.map_filter f ys"
  by (simp add: List.map_filter_def)

lemma quantities_of_orders:
  "orders evs' = orders evs @ map (market_params symbol side) qs \<Longrightarrow>
   quantities evs' = quantities evs @ map Num qs"
  by (simp add: quantities_orders map_filter_append map_filter_market)

lemma submitted_append:
  "quantities (trace w') = quantities (trace w) @ qs \<Longrightarrow> submitted w w' = qs"
  by (simp add: submitted_def)

lemma place_twap_unfold:
  assumes "1 \<le> slices" and "py_float tq = Inr t" and "float_of_int slices = Inr s"
  shows "place_twap fn symbol side tq slices interval_s w =
    twap_loop fn symbol side tq slices interval_s (fdiv t s) [0..slices - 1] [] w"
  using assms by (simp add: place_twap_def)

lemma place_twap_runs:
  assumes s: "1 \<le> slices" and t: "py_float tq = Inr t" and c: "float_of_int slices = Inr s"
    and iv: "0 \<le> interval_s" "interval_s \<le> sleep_max"
  shows "\<exists>w'. place_twap fn symbol side tq slices interval_s w =
           (Inr (adapter_results fn
                   (map (market_params symbol side) (twap_quantities tq slices)) w), w')
         \<and> orders (trace w') = orders (trace w) @
             map (market_params symbol side) (twap_quantities tq slices)"
proof -
  let ?base = "fdiv t s"
  have q: "\<forall>i \<in> set [0..slices - 1].
      slice_qty tq ?base slices i = Inr (slice_value t ?base slices i)"
    using slice_qty_ok [OF t c s] by simp
  have m: "map (\<lambda>i. market_params symbol side (slice_value t ?base slices i)) [0..slices - 1] =
      map (market_params symbol side) (twap_quantities tq slices)"
    by (simp add: twap_quantities_ok [OF t c])
  from twap_loop_runs [OF iv q, of fn symbol side "[]" w]
  show ?thesis
    unfolding m place_twap_unfold [OF s t c] by auto
qed

lemma place_twap_single:
  assumes "py_float tq = Inr t"
  shows "place_twap fn symbol side tq 1 interval_s w =
     (case place_market_order fn symbol side (slice_value t (fdiv t 1) 1 0) w of
        (res, w1) \<Rightarrow> (Inr [res], w1))"
proof -
  have c: "float_of_int 1 = Inr 1" using float_of_int_small [of 1] by simp
  have "slice_qty tq (fdiv t 1) 1 0 = Inr (slice_value t (fdiv t 1) 1 0)"
    using assms c by (intro slice_qty_ok) simp_all
  then show ?thesis
    using assms c by (simp add: place_twap_def split: prod.splits)
qed

lemma place_twap_runs_single:
  assumes "py_float tq = Inr t"
  shows "\<exists>w'. place_twap fn symbol side tq 1 interval_s w =
           (Inr (adapter_results fn
                   (map (market_params symbol side) (twap_quantities tq 1)) w), w')
         \<and> orders (trace w') = orders (trace w) @
             map (market_params symbol side) (twap_quantities tq 1)"
proof -
  let ?kw = "market_params symbol side (slice_value t (fdiv t 1) 1 0)"
  have c: "float_of_int 1 = Inr 1" using float_of_int_small [of 1] by simp
  have tqs: "twap_quantities tq 1 = [slice_value t (fdiv t 1) 1 0]"
    by (simp add: twap_quantities_ok [OF assms c])
  obtain res w1 where ex: "safe_execute fn ?kw w = (res, w1)"
    by (cases "safe_execute fn ?kw w")
  have "trace w1 = trace w @ [Order ?kw]"
    using safe_execute_trace [of fn ?kw w] ex by simp
  then show ?thesis
    using ex by (simp add: place_twap_single [OF assms] tqs place_market_order_def
        orders_append)
qed

lemma twap_quantities_none:
  "slices \<le> 0 \<Longrightarrow> twap_quantities tq slices = []"
  by (simp add: twap_quantities_def split: sum.splits)

lemma place_twap_submitted:
  assumes "0 \<le> interval_s \<and> interval_s \<le> sleep_max \<or> slices \<le> 1"
  shows "submitted w (snd (place_twap fn symbol side tq slices interval_s w)) =
           map Num (twap_quantities tq slices)"
proof (cases "slices \<le> 0")
  case True
  then show ?thesis
    by (simp add: place_twap_def submitted_def twap_quantities_none)
next
  case pos: False
  show ?thesis
  proof (cases "py_float tq")
    case (Inl e)
    with pos show ?thesis
      by (simp add: place_twap_def submitted_def twap_quantities_def)
  next
    case t: (Inr t)
    show ?thesis
    proof (cases "float_of_int slices")
      case (Inl e)
      with pos t show ?thesis
        by (simp add: place_twap_def submitted_def twap_quantities_def)
    next
      case c: (Inr s)
      show ?thesis
      proof (cases "slices = 1")
        case True
        from place_twap_runs_single [OF t, of fn symbol side interval_s w] obtain w' where
          "snd (place_twap fn symbol side tq 1 interval_s w) = w'"
          "orders (trace w') = orders (trace w) @
             map (market_params symbol side) (twap_quantities tq 1)"
          by auto
        then show ?thesis
          using True by (simp add: quantities_of_orders submitted_append)
      next
        case False
        with pos assms have "1 \<le> slices" "0 \<le> interval_s" "interval_s \<le> sleep_max"
          by simp_all
        from place_twap_runs [OF this(1) t c this(2,3), of fn symbol side w] obtain w' where
          "snd (place_twap fn symbol side tq slices interval_s w) = w'"
          "orders (trace w') = orders (trace w) @
             map (market_params symbol side) (twap_quantities tq slices)"
          by auto
        then show ?thesis
          by (simp add: quantities_of_orders submitted_append)
      qed
    qed
  qed
qed

section \<open>The claims\<close>

subsection \<open>The exchange adapter\<close>

text \<open>
  Claim C3. For each adapter operation (\<open>place_market_order\<close>, \<open>place_limit_order\<close>,
  \<open>place_stop_limit\<close>): when the exchange call raises an exception carrying the message
  \<open>m\<close>, the operation returns the error descriptor \<^verbatim>\<open>{"error": m}\<close>. The operations
  return a value in every case: their result type has no exception. The witness is the
  recognised exchange exception with the message "Insufficient margin".
\<close>

theorem adapter_normalises_exceptions:
  "(fn (market_params symbol side quantity) (exchange w) = (Inl e, s') \<longrightarrow>
      fst (place_market_order fn symbol side quantity w) = Dict [(''error'', Str (exn_message e))])
   \<and> (fn (limit_params symbol side quantity price) (exchange w) = (Inl e, s') \<longrightarrow>
      fst (place_limit_order fn symbol side quantity price w) =
        Dict [(''error'', Str (exn_message e))])
   \<and> (fn (stop_limit_params symbol side quantity price stop_price) (exchange w) = (Inl e, s') \<longrightarrow>
      fst (place_stop_limit fn symbol side quantity price stop_price w) =
        Dict [(''error'', Str (exn_message e))])"
  by (simp add: place_market_order_def place_limit_order_def place_stop_limit_def
      safe_execute_raised)

theorem adapter_normalises_exceptions_witness:
  "fst (place_market_order rejecting ''BTCUSDT'' ''BUY'' 1 start) =
     Dict [(''error'', Str ''Insufficient margin'')]
   \<and> fst (place_limit_order rejecting ''BTCUSDT'' ''BUY'' 1 50000 start) =
     Dict [(''error'', Str ''Insufficient margin'')]
   \<and> fst (place_stop_limit rejecting ''BTCUSDT'' ''SELL'' 1 50000 49000 start) =
     Dict [(''error'', Str ''Insufficient margin'')]"
  using adapter_normalises_exceptions [of rejecting "''BTCUSDT''" "''BUY''" 1 start
      "BinanceAPIException (Some ''Insufficient margin'')
         ''APIError(code=-2019): Insufficient margin''" 1 50000 50000]
    adapter_normalises_exceptions [of rejecting "''BTCUSDT''" "''SELL''" 1 start
      "BinanceAPIException (Some ''Insufficient margin'')
         ''APIError(code=-2019): Insufficient margin''" 1 50000 49000]
  by (simp add: rejecting_def start_def)

text \<open>
  Claim C7. The result of each adapter operation is exactly one of two things: the payload
  the exchange call returned, unchanged, or the error descriptor of the exception the call
  raised. Exactly one of the two alternatives holds.
\<close>

theorem order_result_payload_xor_error:
  "((\<exists>resp s'. fn (market_params symbol side quantity) (exchange w) = (Inr resp, s') \<and>
        fst (place_market_order fn symbol side quantity w) = resp) \<noteq>
    (\<exists>e s'. fn (market_params symbol side quantity) (exchange w) = (Inl e, s') \<and>
        fst (place_market_order fn symbol side quantity w) =
          Dict [(''error'', Str (exn_message e))]))
   \<and> ((\<exists>resp s'. fn (limit_params symbol side quantity price) (exchange w) = (Inr resp, s') \<and>
        fst (place_limit_order fn symbol side quantity price w) = resp) \<noteq>
    (\<exists>e s'. fn (limit_params symbol side quantity price) (exchange w) = (Inl e, s') \<and>
        fst (place_limit_order fn symbol side quantity price w) =
          Dict [(''error'', Str (exn_message e))]))
   \<and> ((\<exists>resp s'. fn (stop_limit_params symbol side quantity price stop_price) (exchange w) =
          (Inr resp, s') \<and>
        fst (place_stop_limit fn symbol side quantity price stop_price w) = resp) \<noteq>
    (\<exists>e s'. fn (stop_limit_params symbol side quantity price stop_price) (exchange w) =
          (Inl e, s') \<and>
        fst (place_stop_limit fn symbol side quantity price stop_price w) =
          Dict [(''error'', Str (exn_message e))]))"
  unfolding place_market_order_def place_limit_order_def place_stop_limit_def
  by (intro conjI safe_execute_xor)

text \<open>
  Claim C8. The parameter set dispatched by \<open>place_limit_order\<close> and by
  \<open>place_stop_limit\<close> has the field \<^verbatim>\<open>timeInForce\<close> with the value "GTC"; the one
  dispatched by \<open>place_market_order\<close> has no field \<^verbatim>\<open>timeInForce\<close>.
\<close>

theorem time_in_force_gtc:
  "(\<exists>kw. trace (snd (place_limit_order fn symbol side quantity price w)) = trace w @ [Order kw]
      \<and> map_of kw ''timeInForce'' = Some (Str ''GTC''))
   \<and> (\<exists>kw. trace (snd (place_stop_limit fn symbol side quantity price stop_price w)) =
        trace w @ [Order kw]
      \<and> map_of kw ''timeInForce'' = Some (Str ''GTC''))
   \<and> (\<exists>kw. trace (snd (place_market_order fn symbol side quantity w)) = trace w @ [Order kw]
      \<and> map_of kw ''timeInForce'' = None)"
  by (simp add: place_market_order_def place_limit_order_def place_stop_limit_def
      safe_execute_trace market_params_def limit_params_def stop_limit_params_def)

subsection \<open>The precondition of the slicer\<close>

text \<open>
  Claim C2. With \<open>slices \<le> 0\<close>, \<open>place_twap\<close> raises the \<^verbatim>\<open>ValueError\<close> of its
  precondition and leaves the world as it was: no order, no sleep. With \<open>slices \<ge> 1\<close>
  that error is never the outcome.
\<close>

theorem place_twap_slices_check:
  "(slices \<le> 0 \<longrightarrow>
      place_twap fn symbol side tq slices interval_s w =
        (Inl (ValueError ''slices must be >= 1''), w))
   \<and> (1 \<le> slices \<longrightarrow>
      fst (place_twap fn symbol side tq slices interval_s w) \<noteq>
        Inl (ValueError ''slices must be >= 1''))"
proof (intro conjI impI)
  assume "slices \<le> 0"
  then show "place_twap fn symbol side tq slices interval_s w =
      (Inl (ValueError ''slices must be >= 1''), w)"
    by (simp add: place_twap_def)
next
  assume s: "1 \<le> slices"
  show "fst (place_twap fn symbol side tq slices interval_s w) \<noteq>
      Inl (ValueError ''slices must be >= 1'')"
  proof
    assume "fst (place_twap fn symbol side tq slices interval_s w) =
      Inl (ValueError ''slices must be >= 1'')"
    with s show False
      by (auto simp: place_twap_def Let_def split: sum.splits
          dest: py_float_error twap_loop_error
          simp: float_of_int_def)
  qed
qed

theorem place_twap_slices_check_witness:
  "(0::int) \<le> 0 \<and>
   place_twap accepting ''BTCUSDT'' ''BUY'' 1 0 1 start =
     (Inl (ValueError ''slices must be >= 1''), start)
   \<and> (1::int) \<le> 2 \<and>
   fst (place_twap accepting ''BTCUSDT'' ''BUY'' 1 2 1 start) \<noteq>
     Inl (ValueError ''slices must be >= 1'')"
  using place_twap_slices_check [of 0 accepting "''BTCUSDT''" "''BUY''" 1 1 start]
    place_twap_slices_check [of 2 accepting "''BTCUSDT''" "''BUY''" 1 1 start]
  by simp

subsection \<open>The slices of a plan\<close>

text \<open>
  Claim C4, as amended. Take a call with \<open>slices = N \<ge> 1\<close> that passes line 80 (the
  total and \<open>N\<close> are at most the largest float, so both convert), and with
  \<open>0 \<le> interval_s \<le> sleep_max\<close> or \<open>N = 1\<close>. Then \<open>place_twap\<close> returns a sequence of
  length \<open>N\<close>; it is the sequence of the adapter results of the \<open>N\<close> market orders it
  dispatched, in the order of execution; and all \<open>N\<close> orders are dispatched whatever the
  exchange answers, so an error result stops nothing. The witness is the plan of five
  slices whose second order the exchange rejects.
\<close>

theorem twap_results_in_order:
  assumes "1 \<le> slices" and "of_int slices \<le> max_float" and "\<bar>tq\<bar> \<le> max_float"
    and "0 \<le> interval_s \<and> interval_s \<le> sleep_max \<or> slices = 1"
  shows "\<exists>qs w'. length qs = nat slices
         \<and> place_twap fn symbol side tq slices interval_s w =
           (Inr (adapter_results fn (map (market_params symbol side) qs) w), w')
         \<and> length (adapter_results fn (map (market_params symbol side) qs) w) = nat slices
         \<and> orders (trace w') = orders (trace w) @ map (market_params symbol side) qs"
proof -
  have t: "py_float tq = Inr (fl tq)" using assms(3) by (rule py_float_ok)
  have s: "float_of_int slices = Inr (fl (of_int slices))"
    using assms(1,2) by (intro float_of_int_ok) simp_all
  have l: "length (twap_quantities tq slices) = nat slices"
    using t s by (rule length_twap_quantities)
  show ?thesis
  proof (cases "slices = 1")
    case True
    from place_twap_runs_single [OF t, of fn symbol side interval_s w] l True show ?thesis
      by (auto simp: length_adapter_results)
  next
    case False
    with assms(4) have "0 \<le> interval_s" "interval_s \<le> sleep_max" by simp_all
    from place_twap_runs [OF assms(1) t s this, of fn symbol side w] l show ?thesis
      by (auto simp: length_adapter_results)
  qed
qed

theorem twap_results_in_order_witness:
  "(1::int) \<le> 5 \<and> of_int 5 \<le> max_float \<and> \<bar>1\<bar> \<le> max_float
   \<and> (0::int) \<le> 0 \<and> 0 \<le> sleep_max
   \<and> fst (place_twap rejecting_second ''BTCUSDT'' ''BUY'' 1 5 0 start) =
     Inr [Dict [(''orderId'', Str ''ok'')], Dict [(''error'', Str ''Insufficient margin'')],
          Dict [(''orderId'', Str ''ok'')], Dict [(''orderId'', Str ''ok'')],
          Dict [(''orderId'', Str ''ok'')]]
   \<and> length (orders (trace (snd (place_twap rejecting_second ''BTCUSDT'' ''BUY'' 1 5 0 start)))) = 5"
proof -
  have h: "(1::int) \<le> 5" "of_int 5 \<le> max_float" "\<bar>1\<bar> \<le> max_float"
    "0 \<le> (0::int) \<and> 0 \<le> sleep_max \<or> (5::int) = 1"
    by (simp_all add: max_float_def sleep_max_def)
  have r: "adapter_results rejecting_second (map (market_params ''BTCUSDT'' ''BUY'') qs) start =
     [Dict [(''orderId'', Str ''ok'')], Dict [(''error'', Str ''Insufficient margin'')],
      Dict [(''orderId'', Str ''ok'')], Dict [(''orderId'', Str ''ok'')],
      Dict [(''orderId'', Str ''ok'')]]" if "length qs = 5" for qs
  proof -
    from that obtain a b c d e where "qs = [a, b, c, d, e]"
      by (auto simp: length_Suc_conv eval_nat_numeral)
    then show ?thesis
      by (simp add: safe_execute_def rejecting_second_def start_def)
  qed
  have t: "trace start = []"
    by (simp add: start_def)
  from twap_results_in_order [OF h, of rejecting_second "''BTCUSDT''" "''BUY''" start]
  obtain qs w' where "length qs = 5"
    and "place_twap rejecting_second ''BTCUSDT'' ''BUY'' 1 5 0 start =
      (Inr (adapter_results rejecting_second (map (market_params ''BTCUSDT'' ''BUY'') qs) start), w')"
    and "orders (trace w') = orders (trace start) @ map (market_params ''BTCUSDT'' ''BUY'') qs"
    by auto
  with h show ?thesis
    by (simp add: r t)
qed

text \<open>
  The claim as stated, for every call with \<open>slices \<ge> 1\<close>, fails in three ways. With a
  negative interval \<^verbatim>\<open>time.sleep\<close> raises \<^verbatim>\<open>ValueError\<close> after the first order, with an
  interval of \<open>10 ^ 10\<close> seconds it raises \<^verbatim>\<open>OverflowError\<close> there, and with
  \<open>slices = 2 ^ 1024\<close> line 80 raises \<^verbatim>\<open>OverflowError\<close> before any order; in each case no
  sequence is returned.
\<close>

theorem twap_negative_interval_counterexample:
  "place_twap accepting ''BTCUSDT'' ''BUY'' 1 2 (- 1) start =
     (Inl (ValueError ''sleep length must be non-negative''),
      \<lparr>exchange = 1, trace = [Order (market_params ''BTCUSDT'' ''BUY'' (1 / 2))]\<rparr>)
   \<and> place_twap accepting ''BTCUSDT'' ''BUY'' 1 2 (10 ^ 10) start =
     (Inl (OverflowError ''timestamp too large to convert to C _PyTime_t''),
      \<lparr>exchange = 1, trace = [Order (market_params ''BTCUSDT'' ''BUY'' (1 / 2))]\<rparr>)
   \<and> place_twap accepting ''BTCUSDT'' ''BUY'' 1 (2 ^ 1024) 0 start =
     (Inl (OverflowError ''int too large to convert to float''), start)"
proof (intro conjI)
  show "place_twap accepting ''BTCUSDT'' ''BUY'' 1 2 (- 1) start =
     (Inl (ValueError ''sleep length must be non-negative''),
      \<lparr>exchange = 1, trace = [Order (market_params ''BTCUSDT'' ''BUY'' (1 / 2))]\<rparr>)"
    by code_simp
  show "place_twap accepting ''BTCUSDT'' ''BUY'' 1 2 (10 ^ 10) start =
     (Inl (OverflowError ''timestamp too large to convert to C _PyTime_t''),
      \<lparr>exchange = 1, trace = [Order (market_params ''BTCUSDT'' ''BUY'' (1 / 2))]\<rparr>)"
    by code_simp
  show "place_twap accepting ''BTCUSDT'' ''BUY'' 1 (2 ^ 1024) 0 start =
     (Inl (OverflowError ''int too large to convert to float''), start)"
    using float_of_int_two_1024 by (simp add: place_twap_def py_float_one)
qed

text \<open>
  Claim C10, as amended. For two calls with the same \<open>total_quantity\<close> and the same
  \<open>slices\<close>, each with \<open>0 \<le> interval_s \<le> sleep_max\<close> (or \<open>slices \<le> 1\<close>), the sequences of
  submitted quantities are equal, whatever the symbol, the side, the interval, the
  exchange and its answers.
\<close>

theorem twap_quantities_deterministic:
  assumes "0 \<le> interval_a \<and> interval_a \<le> sleep_max \<or> slices \<le> 1"
    and "0 \<le> interval_b \<and> interval_b \<le> sleep_max \<or> slices \<le> 1"
  shows "submitted w_a (snd (place_twap fn_a symbol_a side_a tq slices interval_a w_a)) =
         submitted w_b (snd (place_twap fn_b symbol_b side_b tq slices interval_b w_b))"
  by (simp add: place_twap_submitted [OF assms(1)] place_twap_submitted [OF assms(2)])

theorem twap_quantities_deterministic_witness:
  "(0::int) \<le> 0 \<and> 0 \<le> sleep_max \<and> (0::int) \<le> 7 \<and> 7 \<le> sleep_max \<and>
   submitted start (snd (place_twap accepting ''BTCUSDT'' ''BUY'' 1 3 0 start)) =
   submitted start (snd (place_twap rejecting ''ETHUSDT'' ''SELL'' 1 3 7 start))"
  using twap_quantities_deterministic [of 0 3 7 start accepting "''BTCUSDT''" "''BUY''" 1
      start rejecting "''ETHUSDT''" "''SELL''"]
  by (simp add: sleep_max_def)

text \<open>
  The claim as stated, regardless of \<open>interval_s\<close>, fails: with a negative interval, and
  with one of \<open>10 ^ 10\<close> seconds, \<^verbatim>\<open>time.sleep\<close> raises after the first order and the second
  slice of two is never submitted.
\<close>

theorem twap_interval_sign_counterexample:
  "submitted start (snd (place_twap accepting ''BTCUSDT'' ''BUY'' 1 2 0 start)) =
     [Num (1 / 2), Num (1 / 2)]
   \<and> submitted start (snd (place_twap accepting ''BTCUSDT'' ''BUY'' 1 2 (- 1) start)) =
     [Num (1 / 2)]
   \<and> submitted start (snd (place_twap accepting ''BTCUSDT'' ''BUY'' 1 2 (10 ^ 10) start)) =
     [Num (1 / 2)]"
  by code_simp




subsection \<open>The remainder on the last slice\<close>

text \<open>
  Claim C1 (the quantities of the slices add up to \<open>total_quantity\<close>), evaluated at
  \<^verbatim>\<open>place_twap("BTCUSDT", "BUY", 1.0, 3, 0)\<close>. The three quantities submitted are
  \<open>0.33333333\<close> each. Their sum, as Python's \<^verbatim>\<open>sum\<close> computes it, is \<open>0.99999999\<close>, not
  \<open>1.0\<close>, and the exact shortfall is more than half a unit of the eighth decimal: the
  remainder of line 83 is taken from the unrounded base, so the last slice is the base
  again and makes up for nothing.
\<close>

theorem twap_sum_drift:
  "submitted start (snd (place_twap accepting ''BTCUSDT'' ''BUY'' 1 3 0 start)) =
     [Num (literal (33333333 / 10 ^ 8)), Num (literal (33333333 / 10 ^ 8)),
      Num (literal (33333333 / 10 ^ 8))]
   \<and> fadd (fadd (fadd 0 (literal (33333333 / 10 ^ 8))) (literal (33333333 / 10 ^ 8)))
        (literal (33333333 / 10 ^ 8)) = literal (99999999 / 10 ^ 8)
   \<and> literal (99999999 / 10 ^ 8) \<noteq> 1
   \<and> 1 - 3 * literal (33333333 / 10 ^ 8) > 1 / (2 * 10 ^ 8)"
  by code_simp

text \<open>
  Claim C5 (the example of the specification), evaluated at the same call: the orders
  dispatched are three market orders of \<open>0.33333333\<close>; the third is not \<open>0.33333334\<close>.
\<close>

theorem twap_example_quantities:
  "orders (trace (snd (place_twap accepting ''BTCUSDT'' ''BUY'' 1 3 0 start))) =
     [market_params ''BTCUSDT'' ''BUY'' (literal (33333333 / 10 ^ 8)),
      market_params ''BTCUSDT'' ''BUY'' (literal (33333333 / 10 ^ 8)),
      market_params ''BTCUSDT'' ''BUY'' (literal (33333333 / 10 ^ 8))]
   \<and> literal (33333333 / 10 ^ 8) \<noteq> literal (33333334 / 10 ^ 8)"
  by code_simp

subsection \<open>No validation of the quantity\<close>




end
